theory Spec2Isabelle
  imports Main "HOL-Library.Word"
begin

section \<open>EncryptedSurvey: data model\<close>

text \<open>
  A shallow embedding of \<^verbatim>\<open>src/contracts/EncryptedSurvey.sol\<close>.

  \<^item> \<^verbatim>\<open>address\<close> is a 160-bit word, \<^verbatim>\<open>euint32\<close> and \<^verbatim>\<open>externalEuint32\<close> are the
    32-byte ciphertext handles of the FHE library, \<^verbatim>\<open>bytes\<close> is a list of bytes.
  \<^item> \<^verbatim>\<open>uint256\<close> indices and lengths are natural numbers: the contract only compares
    them and counts a loop up to an array length, so no arithmetic on them can wrap.
  \<^item> A revert is the \<open>Inl\<close> branch of a sum; a call that returns gives the new state
    together with the events it emitted.
  \<^item> Gas is not modelled, and of the library calls only \<^verbatim>\<open>FHE.fromExternal\<close> is taken
    to revert: \<^verbatim>\<open>FHE.add\<close>, \<^verbatim>\<open>FHE.allow\<close> and \<^verbatim>\<open>FHE.allowThis\<close> return.
\<close>

type_synonym address = "160 word"
type_synonym euint32 = "256 word"
type_synonym externalEuint32 = "256 word"
type_synonym bytes = "8 word list"

record SurveyOption =
  label :: string
  encryptedTotal :: euint32

text \<open>
  The five errors the contract declares. \<open>InvalidProof\<close> is not declared by the
  contract: it stands for the revert that \<^verbatim>\<open>FHE.fromExternal\<close> raises inside the
  library when the input proof is rejected, which \<^verbatim>\<open>submitVote\<close> propagates.
\<close>

datatype error =
    SurveyNotConfigured
  | AlreadyVoted
  | InvalidOption
  | NotOwner
  | SurveyClosed
  | InvalidProof

datatype event =
    SurveyConfigured string "string list"
  | VoteSubmitted address nat
  | SurveyFinalized address
  | ResultAccessGranted address nat
  | SelfAccessGranted address nat

text \<open>
  The storage of the contract, in declaration order, and \<open>acl\<close>: the permissions the
  contract has written to the FHE access-control list through \<^verbatim>\<open>FHE.allow\<close> and
  \<^verbatim>\<open>FHE.allowThis\<close>, as pairs of a ciphertext handle and the account allowed on it.
\<close>

record survey =
  owner :: address
  surveyCreator :: address
  surveyQuestion :: string
  options :: "SurveyOption list"
  isConfigured :: bool
  isFinalized :: bool
  hasVoted :: "address \<Rightarrow> bool"
  optionHasVotes :: "nat \<Rightarrow> bool"
  acl :: "(euint32 \<times> address) set"

text \<open>
  The FHE library (\<^verbatim>\<open>@fhevm/solidity/lib/FHE.sol\<close>) is not part of the repository; the
  two operations of it that compute a value are parameters of the model, with the
  contract's own address:
  \<^item> \<open>fromExternal v p\<close> is \<^verbatim>\<open>FHE.fromExternal(v, p)\<close>: the verified handle, or \<open>None\<close>
    when the library reverts on the proof;
  \<^item> \<open>fheAdd a b\<close> is \<^verbatim>\<open>FHE.add(a, b)\<close>: the handle of the homomorphic sum;
  \<^item> \<open>thisAddress\<close> is \<^verbatim>\<open>address(this)\<close>.
\<close>

record fhevm =
  fromExternal :: "externalEuint32 \<Rightarrow> bytes \<Rightarrow> euint32 option"
  fheAdd :: "euint32 \<Rightarrow> euint32 \<Rightarrow> euint32"
  thisAddress :: address

type_synonym 'a result = "error + 'a"

section \<open>The contract's functions\<close>

text \<open>\<^verbatim>\<open>FHE.allow(handle, account)\<close>: one more entry of the access-control list.\<close>

definition allow :: "euint32 \<Rightarrow> address \<Rightarrow> survey \<Rightarrow> survey" where
  "allow h a s = s\<lparr>acl := insert (h, a) (acl s)\<rparr>"

text \<open>The constructor: \<^verbatim>\<open>owner = msg.sender\<close>, every other slot at its zero value.\<close>

definition constructor :: "address \<Rightarrow> survey" where
  "constructor sender =
     \<lparr>owner = sender, surveyCreator = 0, surveyQuestion = [], options = [],
      isConfigured = False, isFinalized = False, hasVoted = (\<lambda>_. False),
      optionHasVotes = (\<lambda>_. False), acl = {}\<rparr>"

text \<open>
  The loop of \<^verbatim>\<open>configureSurvey\<close>: one \<^verbatim>\<open>push\<close> per label, in order, of an option whose
  \<^verbatim>\<open>encryptedTotal\<close> is the zero handle of a fresh memory struct.
\<close>

fun pushOptions :: "string list \<Rightarrow> SurveyOption list \<Rightarrow> SurveyOption list" where
  "pushOptions [] opts = opts"
| "pushOptions (l # ls) opts = pushOptions ls (opts @ [\<lparr>label = l, encryptedTotal = 0\<rparr>])"

definition configureSurvey ::
  "survey \<Rightarrow> address \<Rightarrow> string \<Rightarrow> string list \<Rightarrow> (survey \<times> event list) result" where
  "configureSurvey s sender question optionLabels =
     (if isConfigured s then Inl SurveyClosed
      else if length optionLabels < 2 then Inl InvalidOption
      else Inr (s\<lparr>surveyQuestion := question,
                  surveyCreator := sender,
                  options := pushOptions optionLabels [],
                  isConfigured := True,
                  isFinalized := False\<rparr>,
                [SurveyConfigured question optionLabels]))"

definition submitVote ::
  "fhevm \<Rightarrow> survey \<Rightarrow> address \<Rightarrow> nat \<Rightarrow> externalEuint32 \<Rightarrow> bytes
     \<Rightarrow> (survey \<times> event list) result" where
  "submitVote E s sender optionIndex encryptedVote inputProof =
     (if \<not> isConfigured s then Inl SurveyNotConfigured
      else if isFinalized s then Inl SurveyClosed
      else if hasVoted s sender then Inl AlreadyVoted
      else if optionIndex \<ge> length (options s) then Inl InvalidOption
      else (case fromExternal E encryptedVote inputProof of
              None \<Rightarrow> Inl InvalidProof
            | Some voteValue \<Rightarrow>
                let total = fheAdd E (encryptedTotal (options s ! optionIndex)) voteValue;
                    s1 = s\<lparr>options := (options s)
                              [optionIndex := (options s ! optionIndex)\<lparr>encryptedTotal := total\<rparr>],
                            optionHasVotes := (optionHasVotes s)(optionIndex := True),
                            hasVoted := (hasVoted s)(sender := True)\<rparr>;
                    s2 = allow total (thisAddress E) s1;
                    s3 = allow total (owner s2) s2;
                    s4 = (if surveyCreator s3 \<noteq> 0 then allow total (surveyCreator s3) s3 else s3)
                in Inr (s4, [VoteSubmitted sender optionIndex])))"

definition finalizeSurvey :: "survey \<Rightarrow> address \<Rightarrow> (survey \<times> event list) result" where
  "finalizeSurvey s sender =
     (if \<not> isConfigured s then Inl SurveyNotConfigured
      else if isFinalized s then Inl SurveyClosed
      else Inr (s\<lparr>isFinalized := True\<rparr>, [SurveyFinalized sender]))"

definition allowResultFor ::
  "survey \<Rightarrow> address \<Rightarrow> address \<Rightarrow> nat \<Rightarrow> (survey \<times> event list) result" where
  "allowResultFor s sender grantee optionIndex =
     (if \<not> isConfigured s then Inl SurveyNotConfigured
      else if optionIndex \<ge> length (options s) then Inl InvalidOption
      else if \<not> optionHasVotes s optionIndex then Inl SurveyNotConfigured
      else Inr (allow (encryptedTotal (options s ! optionIndex)) grantee s,
                [ResultAccessGranted grantee optionIndex]))"

definition allowResultForSelf ::
  "survey \<Rightarrow> address \<Rightarrow> nat \<Rightarrow> (survey \<times> event list) result" where
  "allowResultForSelf s sender optionIndex =
     (if \<not> isConfigured s then Inl SurveyNotConfigured
      else if optionIndex \<ge> length (options s) then Inl InvalidOption
      else if \<not> optionHasVotes s optionIndex then Inl SurveyNotConfigured
      else Inr (allow (encryptedTotal (options s ! optionIndex)) sender s,
                [SelfAccessGranted sender optionIndex]))"

text \<open>
  The loop of \<^verbatim>\<open>allowAllResultsForSelf\<close>, from index \<open>i\<close>: the state (only its
  access-control list changes), the events emitted so far and the local
  \<^verbatim>\<open>hasAnyVotes\<close>.
\<close>

function allowAllLoop ::
  "address \<Rightarrow> nat \<Rightarrow> survey \<times> event list \<times> bool \<Rightarrow> survey \<times> event list \<times> bool" where
  "allowAllLoop sender i (s, evs, hasAnyVotes) =
     (if i < length (options s) then
        (if optionHasVotes s i then
           allowAllLoop sender (Suc i)
             (allow (encryptedTotal (options s ! i)) sender s,
              evs @ [SelfAccessGranted sender i], True)
         else allowAllLoop sender (Suc i) (s, evs, hasAnyVotes))
      else (s, evs, hasAnyVotes))"
  by pat_completeness auto
termination
  by (relation "measure (\<lambda>(sender, i, s, evs, b). length (options s) - i)")
     (auto simp: allow_def)

declare allowAllLoop.simps [simp del]

definition allowAllResultsForSelf :: "survey \<Rightarrow> address \<Rightarrow> (survey \<times> event list) result" where
  "allowAllResultsForSelf s sender =
     (if \<not> isConfigured s then Inl SurveyNotConfigured
      else (case allowAllLoop sender 0 (s, [], False) of
              (s', evs, hasAnyVotes) \<Rightarrow>
                if \<not> hasAnyVotes then Inl SurveyNotConfigured else Inr (s', evs)))"

definition getOptionLabels :: "survey \<Rightarrow> string list result" where
  "getOptionLabels s =
     (if \<not> isConfigured s then Inl SurveyNotConfigured
      else Inr (map label (options s)))"

definition getEncryptedTotal :: "survey \<Rightarrow> nat \<Rightarrow> euint32 result" where
  "getEncryptedTotal s optionIndex =
     (if \<not> isConfigured s then Inl SurveyNotConfigured
      else if optionIndex \<ge> length (options s) then Inl InvalidOption
      else Inr (encryptedTotal (options s ! optionIndex)))"

definition optionCount :: "survey \<Rightarrow> nat result" where
  "optionCount s =
     (if \<not> isConfigured s then Inl SurveyNotConfigured
      else Inr (length (options s)))"

definition hasVoterSubmitted :: "survey \<Rightarrow> address \<Rightarrow> bool result" where
  "hasVoterSubmitted s voter = Inr (hasVoted s voter)"

section \<open>Transactions\<close>

text \<open>
  A call of one of the six state-changing functions. A transaction is a sender and a
  call; a transaction that reverts leaves the state as it was.
\<close>

datatype call =
    ConfigureSurvey string "string list"
  | SubmitVote nat externalEuint32 bytes
  | FinalizeSurvey
  | AllowResultFor address nat
  | AllowResultForSelf nat
  | AllowAllResultsForSelf

fun exec :: "fhevm \<Rightarrow> survey \<Rightarrow> address \<Rightarrow> call \<Rightarrow> (survey \<times> event list) result" where
  "exec E s sender (ConfigureSurvey q ls) = configureSurvey s sender q ls"
| "exec E s sender (SubmitVote i v p) = submitVote E s sender i v p"
| "exec E s sender FinalizeSurvey = finalizeSurvey s sender"
| "exec E s sender (AllowResultFor g i) = allowResultFor s sender g i"
| "exec E s sender (AllowResultForSelf i) = allowResultForSelf s sender i"
| "exec E s sender AllowAllResultsForSelf = allowAllResultsForSelf s sender"

definition transact :: "fhevm \<Rightarrow> survey \<Rightarrow> address \<times> call \<Rightarrow> survey" where
  "transact E s tx =
     (case exec E s (fst tx) (snd tx) of Inl e \<Rightarrow> s | Inr (s', evs) \<Rightarrow> s')"

fun run :: "fhevm \<Rightarrow> survey \<Rightarrow> (address \<times> call) list \<Rightarrow> survey" where
  "run E s [] = s"
| "run E s (tx # txs) = run E (transact E s tx) txs"

text \<open>The states a deployment can be in: the constructor's, and any transaction on.\<close>

inductive reachable :: "fhevm \<Rightarrow> survey \<Rightarrow> bool" for E :: fhevm where
  deployed: "reachable E (constructor sender)"
| transacted: "reachable E s \<Longrightarrow> reachable E (transact E s tx)"

text \<open>
  Two observers of a run, for stating properties of histories: the senders of the
  \<^verbatim>\<open>submitVote\<close> calls that were accepted, in order, and the number of transactions at
  which \<open>isConfigured\<close> went from false to true.
\<close>

fun acceptedVoters :: "fhevm \<Rightarrow> survey \<Rightarrow> (address \<times> call) list \<Rightarrow> address list" where
  "acceptedVoters E s [] = []"
| "acceptedVoters E s ((sender, c) # txs) =
     (case (c, exec E s sender c) of
        (SubmitVote i v p, Inr r) \<Rightarrow> [sender]
      | _ \<Rightarrow> []) @ acceptedVoters E (transact E s (sender, c)) txs"

fun configuredFlips :: "fhevm \<Rightarrow> survey \<Rightarrow> (address \<times> call) list \<Rightarrow> nat" where
  "configuredFlips E s [] = 0"
| "configuredFlips E s (tx # txs) =
     (if \<not> isConfigured s \<and> isConfigured (transact E s tx) then 1 else 0)
       + configuredFlips E (transact E s tx) txs"

section \<open>A concrete deployment\<close>

text \<open>
  A library that accepts every input with a non-empty proof and adds handles as numbers,
  the survey \<open>demoSurvey\<close> that account 2 configured on the contract account 1
  deployed, and \<open>demoVoted\<close>: the state after account 3 voted for option 0.
\<close>

definition demoFhe :: fhevm where
  "demoFhe = \<lparr>fromExternal = (\<lambda>v p. if p = [] then None else Some v),
              fheAdd = (\<lambda>a b. a + b),
              thisAddress = 100\<rparr>"

definition demoSurvey :: survey where
  "demoSurvey = run demoFhe (constructor 1) [(2, ConfigureSurvey ''Q'' [''Red'', ''Blue''])]"

definition demoVoted :: survey where
  "demoVoted = \<lparr>owner = 1, surveyCreator = 2, surveyQuestion = ''Q'',
      options = [\<lparr>label = ''Red'', encryptedTotal = 5\<rparr>, \<lparr>label = ''Blue'', encryptedTotal = 0\<rparr>],
      isConfigured = True, isFinalized = False, hasVoted = (\<lambda>_. False)(3 := True),
      optionHasVotes = (\<lambda>_. False)(0 := True), acl = {(5, 2), (5, 1), (5, 100)}\<rparr>"

section \<open>Auxiliary facts\<close>

text \<open>
  The two loops in closed form.
\<close>

lemma pushOptions_append:
  "pushOptions ls opts = opts @ map (\<lambda>l. \<lparr>label = l, encryptedTotal = 0\<rparr>) ls"
  by (induction ls arbitrary: opts) simp_all

lemma allow_fields [simp]:
  "owner (allow h a s) = owner s"
  "surveyCreator (allow h a s) = surveyCreator s"
  "surveyQuestion (allow h a s) = surveyQuestion s"
  "options (allow h a s) = options s"
  "isConfigured (allow h a s) = isConfigured s"
  "isFinalized (allow h a s) = isFinalized s"
  "hasVoted (allow h a s) = hasVoted s"
  "optionHasVotes (allow h a s) = optionHasVotes s"
  "acl (allow h a s) = insert (h, a) (acl s)"
  by (simp_all add: allow_def)

lemma allowAllLoop_closed:
  "allowAllLoop sender i (s, evs, b) =
     (s\<lparr>acl := acl s \<union> (\<lambda>j. (encryptedTotal (options s ! j), sender)) `
                 set (filter (optionHasVotes s) [i..<length (options s)])\<rparr>,
      evs @ map (SelfAccessGranted sender) (filter (optionHasVotes s) [i..<length (options s)]),
      b \<or> filter (optionHasVotes s) [i..<length (options s)] \<noteq> [])"
proof (induction sender i "(s, evs, b)" arbitrary: s evs b rule: allowAllLoop.induct)
  case (1 sender i s evs hasAnyVotes)
  show ?case
  proof (cases "i < length (options s)")
    case False
    then show ?thesis
      by (subst allowAllLoop.simps) simp
  next
    case inrange: True
    then have upt: "[i..<length (options s)] = i # [Suc i..<length (options s)]"
      by (rule upt_conv_Cons)
    show ?thesis
    proof (cases "optionHasVotes s i")
      case True
      have "allowAllLoop sender i (s, evs, hasAnyVotes) =
            allowAllLoop sender (Suc i)
              (allow (encryptedTotal (options s ! i)) sender s,
               evs @ [SelfAccessGranted sender i], True)"
        using inrange True by (subst allowAllLoop.simps) simp
      also note "1.hyps"(1) [OF inrange True]
      finally show ?thesis
        using True by (simp add: upt allow_def)
    next
      case False
      have "allowAllLoop sender i (s, evs, hasAnyVotes) =
            allowAllLoop sender (Suc i) (s, evs, hasAnyVotes)"
        using inrange False by (subst allowAllLoop.simps) simp
      also note "1.hyps"(2) [OF inrange False]
      finally show ?thesis
        using False by (simp add: upt)
    qed
  qed
qed

lemma allowAllResultsForSelf_closed:
  "allowAllResultsForSelf s sender =
     (if \<not> isConfigured s then Inl SurveyNotConfigured
      else if filter (optionHasVotes s) [0..<length (options s)] = [] then Inl SurveyNotConfigured
      else Inr (s\<lparr>acl := acl s \<union> (\<lambda>j. (encryptedTotal (options s ! j), sender)) `
                          set (filter (optionHasVotes s) [0..<length (options s)])\<rparr>,
                map (SelfAccessGranted sender)
                  (filter (optionHasVotes s) [0..<length (options s)])))"
  by (simp add: allowAllResultsForSelf_def allowAllLoop_closed)

text \<open>
  What an accepted call establishes and what it leaves alone.
\<close>

lemma exec_isConfigured:
  "exec E s sender c = Inr (s', evs) \<Longrightarrow> isConfigured s'"
  by (cases c)
     (auto simp: configureSurvey_def submitVote_def finalizeSurvey_def allowResultFor_def
        allowResultForSelf_def allowAllResultsForSelf_closed Let_def
        split: if_splits option.splits)

lemma exec_hasVoted:
  "exec E s sender c = Inr (s', evs) \<Longrightarrow>
     hasVoted s' a = (hasVoted s a \<or> (a = sender \<and> (\<exists>i v p. c = SubmitVote i v p)))"
  by (cases c)
     (auto simp: configureSurvey_def submitVote_def finalizeSurvey_def allowResultFor_def
        allowResultForSelf_def allowAllResultsForSelf_closed Let_def
        split: if_splits option.splits)

lemma exec_optionHasVotes:
  "exec E s sender c = Inr (s', evs) \<Longrightarrow> optionHasVotes s i \<Longrightarrow> optionHasVotes s' i"
  by (cases c)
     (auto simp: configureSurvey_def submitVote_def finalizeSurvey_def allowResultFor_def
        allowResultForSelf_def allowAllResultsForSelf_closed Let_def
        split: if_splits option.splits)

lemma exec_isFinalized:
  "exec E s sender c = Inr (s', evs) \<Longrightarrow> isConfigured s \<Longrightarrow> isFinalized s \<Longrightarrow> isFinalized s'"
  by (cases c)
     (auto simp: configureSurvey_def submitVote_def finalizeSurvey_def allowResultFor_def
        allowResultForSelf_def allowAllResultsForSelf_closed Let_def
        split: if_splits option.splits)

lemma exec_finalized_options:
  "exec E s sender c = Inr (s', evs) \<Longrightarrow> isConfigured s \<Longrightarrow> isFinalized s \<Longrightarrow>
     options s' = options s"
  by (cases c)
     (auto simp: configureSurvey_def submitVote_def finalizeSurvey_def allowResultFor_def
        allowResultForSelf_def allowAllResultsForSelf_closed Let_def
        split: if_splits option.splits)

lemma exec_options_length:
  "exec E s sender c = Inr (s', evs) \<Longrightarrow> isConfigured s \<longrightarrow> 2 \<le> length (options s) \<Longrightarrow>
     2 \<le> length (options s')"
  by (cases c)
     (auto simp: configureSurvey_def submitVote_def finalizeSurvey_def allowResultFor_def
        allowResultForSelf_def allowAllResultsForSelf_closed Let_def pushOptions_append
        split: if_splits option.splits)

text \<open>
  A transaction either reverts and changes nothing, or is an accepted call.
\<close>

lemma transact_cases:
  obtains (reverted) e where "exec E s (fst tx) (snd tx) = Inl e" and "transact E s tx = s"
  | (accepted) evs where "exec E s (fst tx) (snd tx) = Inr (transact E s tx, evs)"
  by (cases "exec E s (fst tx) (snd tx)") (auto simp: transact_def)

lemma transact_isConfigured: "isConfigured s \<Longrightarrow> isConfigured (transact E s tx)"
  by (rule transact_cases [of E s tx]) (auto dest: exec_isConfigured)

lemma transact_hasVoted: "hasVoted s a \<Longrightarrow> hasVoted (transact E s tx) a"
  by (rule transact_cases [of E s tx]) (auto simp: exec_hasVoted)

lemma transact_optionHasVotes: "optionHasVotes s i \<Longrightarrow> optionHasVotes (transact E s tx) i"
  by (rule transact_cases [of E s tx]) (auto dest: exec_optionHasVotes)

lemma transact_isFinalized:
  "isConfigured s \<Longrightarrow> isFinalized s \<Longrightarrow> isFinalized (transact E s tx)"
  by (rule transact_cases [of E s tx]) (auto dest: exec_isFinalized)

lemma transact_finalized_options:
  "isConfigured s \<Longrightarrow> isFinalized s \<Longrightarrow> options (transact E s tx) = options s"
  by (rule transact_cases [of E s tx]) (auto dest: exec_finalized_options)

lemma transact_options_length:
  "isConfigured s \<longrightarrow> 2 \<le> length (options s) \<Longrightarrow>
     isConfigured (transact E s tx) \<Longrightarrow> 2 \<le> length (options (transact E s tx))"
  by (rule transact_cases [of E s tx]) (auto dest: exec_options_length)

lemma transact_finalized_configured:
  "isFinalized s \<longrightarrow> isConfigured s \<Longrightarrow>
     isFinalized (transact E s tx) \<Longrightarrow> isConfigured (transact E s tx)"
  by (rule transact_cases [of E s tx]) (auto dest: exec_isConfigured)

lemma transact_hasVoted_iff:
  "hasVoted (transact E s (sender, c)) a
     = (hasVoted s a \<or> a \<in> set (case (c, exec E s sender c) of
                                  (SubmitVote i v p, Inr r) \<Rightarrow> [sender] | _ \<Rightarrow> []))"
proof (cases "exec E s sender c")
  case (Inl e)
  then show ?thesis
    by (simp add: transact_def split: call.splits)
next
  case (Inr r)
  obtain s' evs where r: "r = (s', evs)" by (cases r)
  from Inr r have "hasVoted s' a
      = (hasVoted s a \<or> (a = sender \<and> (\<exists>i v p. c = SubmitVote i v p)))"
    by (simp add: exec_hasVoted)
  with Inr r show ?thesis
    by (cases c) (auto simp: transact_def)
qed

text \<open>
  Runs.
\<close>

lemma run_isConfigured: "isConfigured s \<Longrightarrow> isConfigured (run E s txs)"
  by (induction txs arbitrary: s) (simp_all add: transact_isConfigured)

lemma run_hasVoted: "hasVoted s a \<Longrightarrow> hasVoted (run E s txs) a"
  by (induction txs arbitrary: s) (simp_all add: transact_hasVoted)

lemma run_optionHasVotes: "optionHasVotes s i \<Longrightarrow> optionHasVotes (run E s txs) i"
  by (induction txs arbitrary: s) (simp_all add: transact_optionHasVotes)

lemma run_isFinalized:
  "isConfigured s \<Longrightarrow> isFinalized s \<Longrightarrow> isFinalized (run E s txs)"
  by (induction txs arbitrary: s) (simp_all add: transact_isFinalized transact_isConfigured)

lemma run_finalized_options:
  "isConfigured s \<Longrightarrow> isFinalized s \<Longrightarrow> options (run E s txs) = options s"
  by (induction txs arbitrary: s)
     (simp_all add: transact_isFinalized transact_isConfigured transact_finalized_options)

lemma run_hasVoted_iff:
  "hasVoted (run E s txs) a = (hasVoted s a \<or> a \<in> set (acceptedVoters E s txs))"
proof (induction txs arbitrary: s)
  case Nil
  show ?case by simp
next
  case (Cons tx txs)
  obtain sender c where tx: "tx = (sender, c)" by (cases tx)
  show ?case
    unfolding tx by (simp add: Cons.IH transact_hasVoted_iff)
qed

lemma configuredFlips_configured: "isConfigured s \<Longrightarrow> configuredFlips E s txs = 0"
  by (induction txs arbitrary: s) (simp_all add: transact_isConfigured)

lemma configuredFlips_le: "configuredFlips E s txs \<le> 1"
proof (induction txs arbitrary: s)
  case Nil
  show ?case by simp
next
  case (Cons tx txs)
  show ?case
  proof (cases "isConfigured (transact E s tx)")
    case True
    then show ?thesis by (simp add: configuredFlips_configured)
  next
    case False
    with Cons.IH [of "transact E s tx"] show ?thesis by simp
  qed
qed

text \<open>
  Reachable states.
\<close>

lemma reachable_run: "reachable E s \<Longrightarrow> reachable E (run E s txs)"
  by (induction txs arbitrary: s) (simp_all add: reachable.transacted)

lemma reachable_unconfigured:
  "reachable E s \<Longrightarrow> \<not> isConfigured s \<Longrightarrow> \<exists>deployer. s = constructor deployer"
proof (induction rule: reachable.induct)
  case (deployed sender)
  show ?case by blast
next
  case (transacted s tx)
  show ?case
  proof (rule transact_cases [of E s tx])
    fix e assume "transact E s tx = s"
    with transacted show ?thesis by simp
  next
    fix evs assume "exec E s (fst tx) (snd tx) = Inr (transact E s tx, evs)"
    then have "isConfigured (transact E s tx)" by (rule exec_isConfigured)
    with transacted.prems show ?thesis by simp
  qed
qed

lemma reachable_invariant:
  "reachable E s \<Longrightarrow>
     (isConfigured s \<longrightarrow> 2 \<le> length (options s)) \<and> (isFinalized s \<longrightarrow> isConfigured s)"
proof (induction rule: reachable.induct)
  case (deployed sender)
  show ?case by (simp add: constructor_def)
next
  case (transacted s tx)
  then show ?case
    using transact_options_length [of s E tx] transact_finalized_configured [of s E tx]
    by blast
qed

text \<open>
  The concrete deployment, evaluated.
\<close>

lemma demoSurvey_eq:
  "demoSurvey = \<lparr>owner = 1, surveyCreator = 2, surveyQuestion = ''Q'',
      options = [\<lparr>label = ''Red'', encryptedTotal = 0\<rparr>, \<lparr>label = ''Blue'', encryptedTotal = 0\<rparr>],
      isConfigured = True, isFinalized = False, hasVoted = (\<lambda>_. False),
      optionHasVotes = (\<lambda>_. False), acl = {}\<rparr>"
  by (simp add: demoSurvey_def transact_def configureSurvey_def constructor_def)

lemma demoSurvey_configure:
  "configureSurvey (constructor 1) 2 ''Q'' [''Red'', ''Blue'']
     = Inr (demoSurvey, [SurveyConfigured ''Q'' [''Red'', ''Blue'']])"
  by (simp add: configureSurvey_def constructor_def demoSurvey_eq)

lemma demoVoted_eq:
  "submitVote demoFhe demoSurvey 3 0 5 [7] = Inr (demoVoted, [VoteSubmitted 3 0])"
  by (simp add: submitVote_def demoSurvey_eq demoFhe_def demoVoted_def Let_def allow_def)

lemma demoVoted_fields:
  "isConfigured demoVoted" "\<not> isFinalized demoVoted" "length (options demoVoted) = 2"
  "optionHasVotes demoVoted 0" "\<not> optionHasVotes demoVoted (Suc 0)"
  "encryptedTotal (options demoVoted ! 0) = 5"
  by (simp_all add: demoVoted_def)

lemma demoVoted_run:
  "run demoFhe (constructor 1)
     [(2, ConfigureSurvey ''Q'' [''Red'', ''Blue'']), (3, SubmitVote 0 5 [7])] = demoVoted"
  using demoSurvey_configure demoVoted_eq by (simp add: transact_def)

lemma demoVoted_reachable: "reachable demoFhe demoVoted"
  using reachable_run [OF reachable.deployed, of demoFhe 1] demoVoted_run by metis

section \<open>Accepted votes\<close>

text \<open>
  Claim C1. In every state in which the survey is configured and not finalized, the
  caller has not voted, the option index is in range and the library accepts the proof
  (returning the increment), \<^verbatim>\<open>submitVote\<close> returns, and the one state it returns has:
  the option's total replaced by the homomorphic sum of the old total and the
  increment, the option's has-votes flag set, the caller's voter record set, and the
  new total allowed to the owner and, when the creator is not the zero address, to the
  creator.
\<close>

theorem submitVote_accepts:
  assumes "isConfigured s" and "\<not> isFinalized s" and "\<not> hasVoted s sender"
    and "optionIndex < length (options s)"
    and "fromExternal E encryptedVote inputProof = Some increment"
  shows "\<exists>s'. submitVote E s sender optionIndex encryptedVote inputProof
                 = Inr (s', [VoteSubmitted sender optionIndex])
      \<and> encryptedTotal (options s' ! optionIndex)
          = fheAdd E (encryptedTotal (options s ! optionIndex)) increment
      \<and> optionHasVotes s' optionIndex
      \<and> hasVoted s' sender
      \<and> owner s' = owner s \<and> surveyCreator s' = surveyCreator s
      \<and> (encryptedTotal (options s' ! optionIndex), owner s) \<in> acl s'
      \<and> (surveyCreator s \<noteq> 0 \<longrightarrow>
           (encryptedTotal (options s' ! optionIndex), surveyCreator s) \<in> acl s')"
  using assms by (simp add: submitVote_def allow_def Let_def)

theorem submitVote_accepts_witness:
  "\<exists>s'. submitVote demoFhe demoSurvey 3 0 5 [7] = Inr (s', [VoteSubmitted 3 0])
      \<and> encryptedTotal (options s' ! 0) = 5
      \<and> optionHasVotes s' 0 \<and> hasVoted s' 3
      \<and> (5, 1) \<in> acl s' \<and> (5, 2) \<in> acl s'"
proof -
  have "fromExternal demoFhe 5 [7] = Some 5"
    by (simp add: demoFhe_def)
  with submitVote_accepts [of demoSurvey 3 0 demoFhe 5 "[7]" 5]
  obtain s' where "submitVote demoFhe demoSurvey 3 0 5 [7] = Inr (s', [VoteSubmitted 3 0])"
    and "encryptedTotal (options s' ! 0) = fheAdd demoFhe (encryptedTotal (options demoSurvey ! 0)) 5"
    and "optionHasVotes s' 0" and "hasVoted s' 3"
    and "(encryptedTotal (options s' ! 0), owner demoSurvey) \<in> acl s'"
    and "(encryptedTotal (options s' ! 0), surveyCreator demoSurvey) \<in> acl s'"
    by (auto simp: demoSurvey_eq)
  then show ?thesis
    by (intro exI [of _ s']) (simp add: demoSurvey_eq demoFhe_def)
qed

section \<open>One vote per identity\<close>

text \<open>
  That a voter's later vote is rejected with \<open>AlreadyVoted\<close> whatever happened in
  between does not hold when the survey was finalized in between: account 3 votes on
  \<open>demoSurvey\<close>, account 1 finalizes, and the second vote of account 3 is rejected with
  \<open>SurveyClosed\<close>, since \<^verbatim>\<open>submitVote\<close> tests \<^verbatim>\<open>isFinalized\<close> before
  \<^verbatim>\<open>hasVoted[msg.sender]\<close>.
\<close>

theorem vote_after_finalize_counterexample:
  "submitVote demoFhe demoSurvey 3 0 5 [7] = Inr (demoVoted, [VoteSubmitted 3 0])
   \<and> submitVote demoFhe (run demoFhe demoVoted [(1, FinalizeSurvey)]) 3 1 5 [7] = Inl SurveyClosed
   \<and> submitVote demoFhe (run demoFhe demoVoted [(1, FinalizeSurvey)]) 3 1 5 [7] \<noteq> Inl AlreadyVoted"
  by (simp add: demoVoted_eq)
     (simp add: demoVoted_def transact_def finalizeSurvey_def submitVote_def)

text \<open>
  Claim C2, as amended. After one accepted \<^verbatim>\<open>submitVote\<close> by an identity, every later
  \<^verbatim>\<open>submitVote\<close> by that identity is rejected, whatever option index, input and proof
  it carries and whatever transactions ran in between: with \<open>AlreadyVoted\<close> while the
  survey is not finalized, and with \<open>SurveyClosed\<close> once it is.
\<close>

theorem voter_rejected_afterwards:
  assumes "submitVote E s voter k v p = Inr (s1, evs)"
  shows "submitVote E (run E s1 txs) voter k' v' p'
           = Inl (if isFinalized (run E s1 txs) then SurveyClosed else AlreadyVoted)"
proof -
  from assms have "isConfigured s1" and "hasVoted s1 voter"
    by (auto simp: submitVote_def Let_def split: if_splits option.splits)
  then have "isConfigured (run E s1 txs)" and "hasVoted (run E s1 txs) voter"
    by (simp_all add: run_isConfigured run_hasVoted)
  then show ?thesis
    by (simp add: submitVote_def)
qed

theorem voter_rejected_afterwards_witness:
  "submitVote demoFhe (run demoFhe demoVoted [(4, SubmitVote 1 6 [7])]) 3 1 5 [7] = Inl AlreadyVoted
   \<and> submitVote demoFhe (run demoFhe demoVoted [(4, SubmitVote 1 6 [7]), (1, FinalizeSurvey)]) 3 1 5 [7]
       = Inl SurveyClosed"
proof -
  have a: "\<not> isFinalized (run demoFhe demoVoted [(4, SubmitVote 1 6 [7])])"
    by (simp add: demoVoted_def demoFhe_def transact_def submitVote_def Let_def allow_def)
  have b: "isFinalized (run demoFhe demoVoted [(4, SubmitVote 1 6 [7]), (1, FinalizeSurvey)])"
    by (simp add: demoVoted_def demoFhe_def transact_def submitVote_def Let_def allow_def
        finalizeSurvey_def)
  show ?thesis
    using voter_rejected_afterwards [OF demoVoted_eq, of "[(4, SubmitVote 1 6 [7])]" 1 5 "[7]"]
      voter_rejected_afterwards [OF demoVoted_eq,
        of "[(4, SubmitVote 1 6 [7]), (1, FinalizeSurvey)]" 1 5 "[7]"]
    by (simp only: a b if_True if_False simp_thms)
qed

section \<open>Configuration\<close>

text \<open>
  Claim C3. In a reachable state: while the survey is not configured,
  \<^verbatim>\<open>configureSurvey\<close> with fewer than two labels reverts with \<open>InvalidOption\<close> and
  the state stays as it was; with at least two labels it returns, records the question
  and the caller as creator, holds one option per label (the labels in order, every
  total the zero handle), no option has votes, the survey is configured and not
  finalized, and from then on, after any transactions, every \<^verbatim>\<open>configureSurvey\<close>
  reverts with \<open>SurveyClosed\<close>; in a configured state it reverts with
  \<open>SurveyClosed\<close>.
\<close>

theorem configureSurvey_once:
  assumes "reachable E s"
  shows "(\<not> isConfigured s \<and> length optionLabels < 2 \<longrightarrow>
            configureSurvey s sender question optionLabels = Inl InvalidOption
          \<and> transact E s (sender, ConfigureSurvey question optionLabels) = s)
       \<and> (\<not> isConfigured s \<and> 2 \<le> length optionLabels \<longrightarrow>
            (\<exists>s'. configureSurvey s sender question optionLabels
                     = Inr (s', [SurveyConfigured question optionLabels])
                \<and> surveyQuestion s' = question
                \<and> surveyCreator s' = sender
                \<and> map label (options s') = optionLabels
                \<and> (\<forall>i. \<not> optionHasVotes s' i)
                \<and> (\<forall>i < length optionLabels. encryptedTotal (options s' ! i) = 0)
                \<and> isConfigured s' \<and> \<not> isFinalized s'
                \<and> (\<forall>txs sender' question' optionLabels'.
                      configureSurvey (run E s' txs) sender' question' optionLabels'
                        = Inl SurveyClosed)))
       \<and> (isConfigured s \<longrightarrow>
            configureSurvey s sender question optionLabels = Inl SurveyClosed)"
proof (intro conjI impI)
  assume "\<not> isConfigured s \<and> length optionLabels < 2"
  then show "configureSurvey s sender question optionLabels = Inl InvalidOption"
    by (simp add: configureSurvey_def)
  then show "transact E s (sender, ConfigureSurvey question optionLabels) = s"
    by (simp add: transact_def)
next
  assume "isConfigured s"
  then show "configureSurvey s sender question optionLabels = Inl SurveyClosed"
    by (simp add: configureSurvey_def)
next
  assume fresh: "\<not> isConfigured s \<and> 2 \<le> length optionLabels"
  with assms obtain deployer where s: "s = constructor deployer"
    using reachable_unconfigured by blast
  define s' where "s' = s\<lparr>surveyQuestion := question, surveyCreator := sender,
    options := pushOptions optionLabels [], isConfigured := True, isFinalized := False\<rparr>"
  have "configureSurvey s sender question optionLabels
          = Inr (s', [SurveyConfigured question optionLabels])"
    using fresh by (simp add: configureSurvey_def s'_def)
  moreover have "surveyQuestion s' = question" "surveyCreator s' = sender"
    "isConfigured s'" "\<not> isFinalized s'"
    by (simp_all add: s'_def)
  moreover have "map label (options s') = optionLabels"
    by (simp add: s'_def pushOptions_append comp_def)
  moreover have "\<forall>i. \<not> optionHasVotes s' i"
    by (simp add: s'_def s constructor_def)
  moreover have "\<forall>i < length optionLabels. encryptedTotal (options s' ! i) = 0"
    by (simp add: s'_def pushOptions_append)
  moreover have "\<forall>txs sender' question' optionLabels'.
      configureSurvey (run E s' txs) sender' question' optionLabels' = Inl SurveyClosed"
    using \<open>isConfigured s'\<close> by (simp add: configureSurvey_def run_isConfigured)
  ultimately show "\<exists>s'. configureSurvey s sender question optionLabels
                     = Inr (s', [SurveyConfigured question optionLabels])
                \<and> surveyQuestion s' = question
                \<and> surveyCreator s' = sender
                \<and> map label (options s') = optionLabels
                \<and> (\<forall>i. \<not> optionHasVotes s' i)
                \<and> (\<forall>i < length optionLabels. encryptedTotal (options s' ! i) = 0)
                \<and> isConfigured s' \<and> \<not> isFinalized s'
                \<and> (\<forall>txs sender' question' optionLabels'.
                      configureSurvey (run E s' txs) sender' question' optionLabels'
                        = Inl SurveyClosed)"
    by blast
qed

theorem configureSurvey_once_witness:
  "configureSurvey (constructor 1) 2 ''Q'' [''Red''] = Inl InvalidOption
   \<and> transact demoFhe (constructor 1) (2, ConfigureSurvey ''Q'' [''Red'']) = constructor 1
   \<and> configureSurvey (constructor 1) 2 ''Q'' [''Red'', ''Blue'']
       = Inr (demoSurvey, [SurveyConfigured ''Q'' [''Red'', ''Blue'']])
   \<and> map label (options demoSurvey) = [''Red'', ''Blue'']
   \<and> \<not> optionHasVotes demoSurvey 0 \<and> \<not> optionHasVotes demoSurvey 1
   \<and> configureSurvey (run demoFhe demoSurvey [(3, SubmitVote 0 5 [7])]) 3 ''R'' [''Yes'', ''No'']
       = Inl SurveyClosed
   \<and> configureSurvey demoSurvey 3 ''R'' [''Yes'', ''No''] = Inl SurveyClosed"
proof -
  have r0: "reachable demoFhe (constructor 1)"
    by (rule reachable.deployed)
  have r1: "reachable demoFhe demoSurvey"
    unfolding demoSurvey_def using r0 by (rule reachable_run)
  have c0: "\<not> isConfigured (constructor 1)"
    by (simp add: constructor_def)
  have c1: "isConfigured demoSurvey"
    by (simp add: demoSurvey_eq)
  from configureSurvey_once [OF r0, of "[''Red'']" 2 "''Q''"] c0
  have short: "configureSurvey (constructor 1) 2 ''Q'' [''Red''] = Inl InvalidOption
     \<and> transact demoFhe (constructor 1) (2, ConfigureSurvey ''Q'' [''Red'']) = constructor 1"
    by simp
  from configureSurvey_once [OF r0, of "[''Red'', ''Blue'']" 2 "''Q''"] c0
  obtain s' where "configureSurvey (constructor 1) 2 ''Q'' [''Red'', ''Blue'']
        = Inr (s', [SurveyConfigured ''Q'' [''Red'', ''Blue'']])"
    and lbl: "map label (options s') = [''Red'', ''Blue'']"
    and nov: "\<forall>i. \<not> optionHasVotes s' i"
    and closed: "\<forall>txs sender' question' optionLabels'.
       configureSurvey (run demoFhe s' txs) sender' question' optionLabels' = Inl SurveyClosed"
    by auto
  then have s': "s' = demoSurvey"
    by (simp add: demoSurvey_configure)
  have ok: "map label (options demoSurvey) = [''Red'', ''Blue'']
     \<and> \<not> optionHasVotes demoSurvey 0 \<and> \<not> optionHasVotes demoSurvey 1
     \<and> configureSurvey (run demoFhe demoSurvey [(3, SubmitVote 0 5 [7])]) 3 ''R'' [''Yes'', ''No'']
       = Inl SurveyClosed"
    using lbl nov closed unfolding s' by blast
  from configureSurvey_once [OF r1, of "[''Yes'', ''No'']" 3 "''R''"] c1
  have again: "configureSurvey demoSurvey 3 ''R'' [''Yes'', ''No''] = Inl SurveyClosed"
    by simp
  from short ok again demoSurvey_configure show ?thesis
    by simp
qed

section \<open>Finalization\<close>

text \<open>
  Claim C4. \<^verbatim>\<open>finalizeSurvey\<close> reverts with \<open>SurveyNotConfigured\<close> when the survey is
  not configured and with \<open>SurveyClosed\<close> when it is configured and finalized.
  Otherwise it returns the state with only \<open>isFinalized\<close> set. After it, and after
  any further transactions: every \<^verbatim>\<open>submitVote\<close> reverts with \<open>SurveyClosed\<close>;
  \<^verbatim>\<open>getEncryptedTotal\<close> on an index in range returns the handle it returned just
  before the finalization; and the three grant functions return for every option in
  range that has votes.
\<close>

theorem finalizeSurvey_only_closes:
  "(\<not> isConfigured s \<longrightarrow> finalizeSurvey s sender = Inl SurveyNotConfigured)
   \<and> (isConfigured s \<and> isFinalized s \<longrightarrow> finalizeSurvey s sender = Inl SurveyClosed)
   \<and> (isConfigured s \<and> \<not> isFinalized s \<longrightarrow>
        finalizeSurvey s sender = Inr (s\<lparr>isFinalized := True\<rparr>, [SurveyFinalized sender])
      \<and> (\<forall>txs voter k v p.
            submitVote E (run E (s\<lparr>isFinalized := True\<rparr>) txs) voter k v p = Inl SurveyClosed)
      \<and> (\<forall>txs i. i < length (options s) \<longrightarrow>
            getEncryptedTotal s i = Inr (encryptedTotal (options s ! i))
          \<and> getEncryptedTotal (run E (s\<lparr>isFinalized := True\<rparr>) txs) i
              = Inr (encryptedTotal (options s ! i)))
      \<and> (\<forall>txs caller grantee i. i < length (options s) \<and> optionHasVotes s i \<longrightarrow>
            \<not> isl (allowResultFor (run E (s\<lparr>isFinalized := True\<rparr>) txs) caller grantee i)
          \<and> \<not> isl (allowResultForSelf (run E (s\<lparr>isFinalized := True\<rparr>) txs) caller i)
          \<and> \<not> isl (allowAllResultsForSelf (run E (s\<lparr>isFinalized := True\<rparr>) txs) caller)))"
proof (intro conjI impI allI)
  assume "\<not> isConfigured s"
  then show "finalizeSurvey s sender = Inl SurveyNotConfigured"
    by (simp add: finalizeSurvey_def)
next
  assume "isConfigured s \<and> isFinalized s"
  then show "finalizeSurvey s sender = Inl SurveyClosed"
    by (simp add: finalizeSurvey_def)
next
  assume "isConfigured s \<and> \<not> isFinalized s"
  then show "finalizeSurvey s sender = Inr (s\<lparr>isFinalized := True\<rparr>, [SurveyFinalized sender])"
    by (simp add: finalizeSurvey_def)
next
  fix txs voter k v p
  assume "isConfigured s \<and> \<not> isFinalized s"
  then have "isConfigured (run E (s\<lparr>isFinalized := True\<rparr>) txs)"
    and "isFinalized (run E (s\<lparr>isFinalized := True\<rparr>) txs)"
    by (simp_all add: run_isConfigured run_isFinalized)
  then show "submitVote E (run E (s\<lparr>isFinalized := True\<rparr>) txs) voter k v p = Inl SurveyClosed"
    by (simp add: submitVote_def)
next
  fix txs :: "(address \<times> call) list" and i
  assume "isConfigured s \<and> \<not> isFinalized s" and "i < length (options s)"
  then show "getEncryptedTotal s i = Inr (encryptedTotal (options s ! i))"
    by (simp add: getEncryptedTotal_def)
next
  fix txs i
  assume "isConfigured s \<and> \<not> isFinalized s" and "i < length (options s)"
  then show "getEncryptedTotal (run E (s\<lparr>isFinalized := True\<rparr>) txs) i
               = Inr (encryptedTotal (options s ! i))"
    by (simp add: getEncryptedTotal_def run_isConfigured run_finalized_options)
next
  fix txs caller grantee i
  assume "isConfigured s \<and> \<not> isFinalized s" and "i < length (options s) \<and> optionHasVotes s i"
  then show "\<not> isl (allowResultFor (run E (s\<lparr>isFinalized := True\<rparr>) txs) caller grantee i)"
    by (simp add: allowResultFor_def run_isConfigured run_finalized_options run_optionHasVotes)
next
  fix txs caller i
  assume "isConfigured s \<and> \<not> isFinalized s" and "i < length (options s) \<and> optionHasVotes s i"
  then show "\<not> isl (allowResultForSelf (run E (s\<lparr>isFinalized := True\<rparr>) txs) caller i)"
    by (simp add: allowResultForSelf_def run_isConfigured run_finalized_options
        run_optionHasVotes)
next
  fix txs caller i
  let ?t = "run E (s\<lparr>isFinalized := True\<rparr>) txs"
  assume "isConfigured s \<and> \<not> isFinalized s" and "i < length (options s) \<and> optionHasVotes s i"
  then have "isConfigured ?t" and "i < length (options ?t)" and "optionHasVotes ?t i"
    by (simp_all add: run_isConfigured run_finalized_options run_optionHasVotes)
  then have "i \<in> set (filter (optionHasVotes ?t) [0..<length (options ?t)])"
    by simp
  then have "filter (optionHasVotes ?t) [0..<length (options ?t)] \<noteq> []"
    by (metis empty_iff empty_set)
  with \<open>isConfigured ?t\<close> show "\<not> isl (allowAllResultsForSelf ?t caller)"
    by (simp add: allowAllResultsForSelf_closed)
qed

theorem finalizeSurvey_only_closes_witness:
  "finalizeSurvey (constructor 1) 2 = Inl SurveyNotConfigured
   \<and> finalizeSurvey (demoVoted\<lparr>isFinalized := True\<rparr>) 2 = Inl SurveyClosed
   \<and> finalizeSurvey demoVoted 2 = Inr (demoVoted\<lparr>isFinalized := True\<rparr>, [SurveyFinalized 2])
   \<and> submitVote demoFhe (run demoFhe (demoVoted\<lparr>isFinalized := True\<rparr>) []) 4 0 6 [7]
       = Inl SurveyClosed
   \<and> getEncryptedTotal demoVoted 0 = Inr 5
   \<and> getEncryptedTotal (run demoFhe (demoVoted\<lparr>isFinalized := True\<rparr>) [(4, SubmitVote 0 6 [7])]) 0
       = Inr 5
   \<and> \<not> isl (allowResultFor (run demoFhe (demoVoted\<lparr>isFinalized := True\<rparr>) []) 4 9 0)
   \<and> \<not> isl (allowResultForSelf (run demoFhe (demoVoted\<lparr>isFinalized := True\<rparr>) []) 4 0)
   \<and> \<not> isl (allowAllResultsForSelf (run demoFhe (demoVoted\<lparr>isFinalized := True\<rparr>) []) 4)"
proof -
  have "\<not> isConfigured (constructor 1)"
    by (simp add: constructor_def)
  with finalizeSurvey_only_closes [of "constructor 1" 2 demoFhe]
  have a: "finalizeSurvey (constructor 1) 2 = Inl SurveyNotConfigured"
    by blast
  have "isConfigured (demoVoted\<lparr>isFinalized := True\<rparr>) \<and> isFinalized (demoVoted\<lparr>isFinalized := True\<rparr>)"
    by (simp add: demoVoted_fields)
  with finalizeSurvey_only_closes [of "demoVoted\<lparr>isFinalized := True\<rparr>" 2 demoFhe]
  have b: "finalizeSurvey (demoVoted\<lparr>isFinalized := True\<rparr>) 2 = Inl SurveyClosed"
    by blast
  have open_: "isConfigured demoVoted \<and> \<not> isFinalized demoVoted"
    and voted: "0 < length (options demoVoted) \<and> optionHasVotes demoVoted 0"
    by (simp_all add: demoVoted_fields)
  note c = finalizeSurvey_only_closes [of demoVoted 2 demoFhe, THEN conjunct2, THEN conjunct2,
      rule_format, OF open_]
  let ?fin = "demoVoted\<lparr>isFinalized := True\<rparr>"
  from c have c1: "finalizeSurvey demoVoted 2 = Inr (?fin, [SurveyFinalized 2])"
    by blast
  from c have c2: "submitVote demoFhe (run demoFhe ?fin []) 4 0 6 [7] = Inl SurveyClosed"
    by blast
  from c voted have c3: "getEncryptedTotal demoVoted 0 = Inr (encryptedTotal (options demoVoted ! 0))
    \<and> getEncryptedTotal (run demoFhe ?fin [(4, SubmitVote 0 6 [7])]) 0
        = Inr (encryptedTotal (options demoVoted ! 0))"
    by blast
  from c voted have c4: "\<not> isl (allowResultFor (run demoFhe ?fin []) 4 9 0)
    \<and> \<not> isl (allowResultForSelf (run demoFhe ?fin []) 4 0)
    \<and> \<not> isl (allowAllResultsForSelf (run demoFhe ?fin []) 4)"
    by blast
  from a b c1 c2 c3 [unfolded demoVoted_fields(6)] c4 show ?thesis
    by blast
qed

section \<open>Grants\<close>

text \<open>
  Claim C5. In a configured state \<^verbatim>\<open>allowResultFor\<close> and \<^verbatim>\<open>allowResultForSelf\<close>
  revert with \<open>InvalidOption\<close> on an index out of range, revert with
  \<open>SurveyNotConfigured\<close> on an index in range whose option has no votes, and return
  on an index in range whose option has votes: the state returned is the old one with
  the grant in the access-control list. The same call on that state returns that very
  state again (and emits the event again).
\<close>

theorem grant_one_option:
  assumes "isConfigured s"
  shows "(length (options s) \<le> i \<longrightarrow>
            allowResultFor s caller grantee i = Inl InvalidOption
          \<and> allowResultForSelf s caller i = Inl InvalidOption)
       \<and> (i < length (options s) \<and> \<not> optionHasVotes s i \<longrightarrow>
            allowResultFor s caller grantee i = Inl SurveyNotConfigured
          \<and> allowResultForSelf s caller i = Inl SurveyNotConfigured)
       \<and> (i < length (options s) \<and> optionHasVotes s i \<longrightarrow>
            allowResultFor s caller grantee i
              = Inr (s\<lparr>acl := insert (encryptedTotal (options s ! i), grantee) (acl s)\<rparr>,
                     [ResultAccessGranted grantee i])
          \<and> allowResultFor (s\<lparr>acl := insert (encryptedTotal (options s ! i), grantee) (acl s)\<rparr>)
                caller grantee i
              = Inr (s\<lparr>acl := insert (encryptedTotal (options s ! i), grantee) (acl s)\<rparr>,
                     [ResultAccessGranted grantee i])
          \<and> allowResultForSelf s caller i
              = Inr (s\<lparr>acl := insert (encryptedTotal (options s ! i), caller) (acl s)\<rparr>,
                     [SelfAccessGranted caller i])
          \<and> allowResultForSelf (s\<lparr>acl := insert (encryptedTotal (options s ! i), caller) (acl s)\<rparr>)
                caller i
              = Inr (s\<lparr>acl := insert (encryptedTotal (options s ! i), caller) (acl s)\<rparr>,
                     [SelfAccessGranted caller i]))"
  using assms by (simp add: allowResultFor_def allowResultForSelf_def allow_def)

theorem grant_one_option_witness:
  "allowResultFor demoVoted 4 9 2 = Inl InvalidOption
   \<and> allowResultForSelf demoVoted 4 2 = Inl InvalidOption
   \<and> allowResultFor demoVoted 4 9 1 = Inl SurveyNotConfigured
   \<and> allowResultForSelf demoVoted 4 1 = Inl SurveyNotConfigured
   \<and> allowResultFor demoVoted 4 9 0
       = Inr (demoVoted\<lparr>acl := {(5, 9), (5, 2), (5, 1), (5, 100)}\<rparr>, [ResultAccessGranted 9 0])
   \<and> allowResultFor (demoVoted\<lparr>acl := {(5, 9), (5, 2), (5, 1), (5, 100)}\<rparr>) 4 9 0
       = Inr (demoVoted\<lparr>acl := {(5, 9), (5, 2), (5, 1), (5, 100)}\<rparr>, [ResultAccessGranted 9 0])
   \<and> allowResultForSelf demoVoted 4 0
       = Inr (demoVoted\<lparr>acl := {(5, 4), (5, 2), (5, 1), (5, 100)}\<rparr>, [SelfAccessGranted 4 0])
   \<and> allowResultForSelf (demoVoted\<lparr>acl := {(5, 4), (5, 2), (5, 1), (5, 100)}\<rparr>) 4 0
       = Inr (demoVoted\<lparr>acl := {(5, 4), (5, 2), (5, 1), (5, 100)}\<rparr>, [SelfAccessGranted 4 0])"
proof -
  have acl: "acl demoVoted = {(5, 2), (5, 1), (5, 100)}"
    by (simp add: demoVoted_def)
  have "length (options demoVoted) \<le> 2"
    by (simp add: demoVoted_fields)
  with grant_one_option [OF demoVoted_fields(1), of 2 4 9]
  have a: "allowResultFor demoVoted 4 9 2 = Inl InvalidOption
     \<and> allowResultForSelf demoVoted 4 2 = Inl InvalidOption"
    by blast
  have "1 < length (options demoVoted) \<and> \<not> optionHasVotes demoVoted 1"
    by (simp add: demoVoted_fields)
  with grant_one_option [OF demoVoted_fields(1), of 1 4 9]
  have b: "allowResultFor demoVoted 4 9 1 = Inl SurveyNotConfigured
     \<and> allowResultForSelf demoVoted 4 1 = Inl SurveyNotConfigured"
    by blast
  have "0 < length (options demoVoted) \<and> optionHasVotes demoVoted 0"
    by (simp add: demoVoted_fields)
  with grant_one_option [OF demoVoted_fields(1), of 0 4 9]
  have c: "allowResultFor demoVoted 4 9 0
       = Inr (demoVoted\<lparr>acl := insert (encryptedTotal (options demoVoted ! 0), 9) (acl demoVoted)\<rparr>,
              [ResultAccessGranted 9 0])
   \<and> allowResultFor (demoVoted\<lparr>acl := insert (encryptedTotal (options demoVoted ! 0), 9) (acl demoVoted)\<rparr>) 4 9 0
       = Inr (demoVoted\<lparr>acl := insert (encryptedTotal (options demoVoted ! 0), 9) (acl demoVoted)\<rparr>,
              [ResultAccessGranted 9 0])
   \<and> allowResultForSelf demoVoted 4 0
       = Inr (demoVoted\<lparr>acl := insert (encryptedTotal (options demoVoted ! 0), 4) (acl demoVoted)\<rparr>,
              [SelfAccessGranted 4 0])
   \<and> allowResultForSelf (demoVoted\<lparr>acl := insert (encryptedTotal (options demoVoted ! 0), 4) (acl demoVoted)\<rparr>) 4 0
       = Inr (demoVoted\<lparr>acl := insert (encryptedTotal (options demoVoted ! 0), 4) (acl demoVoted)\<rparr>,
              [SelfAccessGranted 4 0])"
    by blast
  from a b c [unfolded demoVoted_fields(6) acl] show ?thesis
    by blast
qed

text \<open>
  Claim C6. In a configured state \<^verbatim>\<open>allowAllResultsForSelf\<close> reverts with
  \<open>SurveyNotConfigured\<close> exactly when no option in range has votes, it reverts with
  no other error, and a reverted call leaves the state as it was. Otherwise it returns
  the state whose access-control list has gained exactly the caller's grants on the
  totals of the options with votes, and it emits one \<open>SelfAccessGranted\<close> event for
  each of these options, in index order.
\<close>

theorem grant_all_voted_options:
  assumes "isConfigured s"
  shows "(allowAllResultsForSelf s caller = Inl SurveyNotConfigured
           \<longleftrightarrow> {i. i < length (options s) \<and> optionHasVotes s i} = {})
       \<and> (isl (allowAllResultsForSelf s caller)
           \<longrightarrow> allowAllResultsForSelf s caller = Inl SurveyNotConfigured
             \<and> transact E s (caller, AllowAllResultsForSelf) = s)
       \<and> ({i. i < length (options s) \<and> optionHasVotes s i} \<noteq> {} \<longrightarrow>
            allowAllResultsForSelf s caller
              = Inr (s\<lparr>acl := acl s \<union>
                        {(encryptedTotal (options s ! i), caller) | i.
                           i < length (options s) \<and> optionHasVotes s i}\<rparr>,
                     map (SelfAccessGranted caller)
                       (filter (optionHasVotes s) [0..<length (options s)])))"
proof -
  let ?voted = "filter (optionHasVotes s) [0..<length (options s)]"
  have set_voted: "set ?voted = {i. i < length (options s) \<and> optionHasVotes s i}"
    by auto
  have empty: "?voted = [] \<longleftrightarrow> {i. i < length (options s) \<and> optionHasVotes s i} = {}"
    using set_voted by (metis set_empty)
  have image: "(\<lambda>j. (encryptedTotal (options s ! j), caller)) ` set ?voted
      = {(encryptedTotal (options s ! i), caller) | i. i < length (options s) \<and> optionHasVotes s i}"
    unfolding set_voted by blast
  show ?thesis
    using assms unfolding transact_def exec.simps fst_conv snd_conv
      allowAllResultsForSelf_closed image empty
    by simp
qed

theorem grant_all_voted_options_witness:
  "allowAllResultsForSelf demoSurvey 4 = Inl SurveyNotConfigured
   \<and> allowAllResultsForSelf demoVoted 4
       = Inr (demoVoted\<lparr>acl := {(5, 4), (5, 2), (5, 1), (5, 100)}\<rparr>, [SelfAccessGranted 4 0])"
proof -
  have none: "{i. i < length (options demoSurvey) \<and> optionHasVotes demoSurvey i} = {}"
    by (simp add: demoSurvey_eq)
  have one: "{i. i < length (options demoVoted) \<and> optionHasVotes demoVoted i} = {0}"
    by (auto simp: demoVoted_def)
  have conf: "isConfigured demoSurvey"
    by (simp add: demoSurvey_eq)
  from grant_all_voted_options [OF conf, of 4] none
  have a: "allowAllResultsForSelf demoSurvey 4 = Inl SurveyNotConfigured"
    by blast
  have "{(encryptedTotal (options demoVoted ! i), 4 :: address) | i.
           i < length (options demoVoted) \<and> optionHasVotes demoVoted i} = {(5, 4)}"
    by (auto simp: demoVoted_def)
  moreover have "filter (optionHasVotes demoVoted) [0..<length (options demoVoted)] = [0]"
    by (simp add: demoVoted_def upt_rec)
  moreover have "acl demoVoted \<union> {(5, 4)} = {(5, 4), (5, 2), (5, 1), (5, 100)}"
    by (simp add: demoVoted_def)
  ultimately have b: "allowAllResultsForSelf demoVoted 4
       = Inr (demoVoted\<lparr>acl := {(5, 4), (5, 2), (5, 1), (5, 100)}\<rparr>, [SelfAccessGranted 4 0])"
    using grant_all_voted_options [OF demoVoted_fields(1), of 4] one
    by simp
  from a b show ?thesis ..
qed

section \<open>Invariants of the lifecycle\<close>

text \<open>
  Claim C7. Every reachable state has at least two options when it is configured and
  is configured when it is finalized. Every transaction on a state with these two
  properties gives a state with them, and keeps \<open>isFinalized\<close> once it is set. Every
  transaction keeps \<open>isConfigured\<close>, each voter record and each has-votes flag once
  it is set, and along any run \<open>isConfigured\<close> goes from false to true at most
  once.
\<close>

theorem lifecycle_invariants:
  "(reachable E s \<longrightarrow>
      (isConfigured s \<longrightarrow> 2 \<le> length (options s)) \<and> (isFinalized s \<longrightarrow> isConfigured s))
   \<and> ((isConfigured s \<longrightarrow> 2 \<le> length (options s)) \<and> (isFinalized s \<longrightarrow> isConfigured s) \<longrightarrow>
        (isConfigured (transact E s tx) \<longrightarrow> 2 \<le> length (options (transact E s tx)))
      \<and> (isFinalized (transact E s tx) \<longrightarrow> isConfigured (transact E s tx))
      \<and> (isFinalized s \<longrightarrow> isFinalized (transact E s tx)))
   \<and> (isConfigured s \<longrightarrow> isConfigured (transact E s tx))
   \<and> configuredFlips E s txs \<le> 1
   \<and> (\<forall>a. hasVoted s a \<longrightarrow> hasVoted (transact E s tx) a)
   \<and> (\<forall>i. optionHasVotes s i \<longrightarrow> optionHasVotes (transact E s tx) i)"
  using reachable_invariant [of E s] transact_options_length [of s E tx]
    transact_finalized_configured [of s E tx] transact_isFinalized [of s E tx]
    transact_isConfigured [of s E tx] configuredFlips_le [of E s txs]
    transact_hasVoted [of s _ E tx] transact_optionHasVotes [of s _ E tx]
  by blast

theorem lifecycle_invariants_witness:
  "2 \<le> length (options demoVoted)
   \<and> 2 \<le> length (options (transact demoFhe demoVoted (1, FinalizeSurvey)))
   \<and> isConfigured (transact demoFhe demoVoted (1, FinalizeSurvey))
   \<and> isFinalized (transact demoFhe (demoVoted\<lparr>isFinalized := True\<rparr>) (4, SubmitVote 1 6 [7]))
   \<and> configuredFlips demoFhe (constructor 1)
        [(2, ConfigureSurvey ''Q'' [''Red'', ''Blue'']), (3, SubmitVote 0 5 [7])] \<le> 1
   \<and> hasVoted (transact demoFhe demoVoted (1, FinalizeSurvey)) 3
   \<and> optionHasVotes (transact demoFhe demoVoted (1, FinalizeSurvey)) 0"
proof -
  let ?fin = "demoVoted\<lparr>isFinalized := True\<rparr>"
  have fin: "transact demoFhe demoVoted (1, FinalizeSurvey) = ?fin"
    by (simp add: transact_def finalizeSurvey_def demoVoted_fields)
  have v: "isConfigured demoVoted" "2 \<le> length (options demoVoted)" "\<not> isFinalized demoVoted"
    "hasVoted demoVoted 3" "optionHasVotes demoVoted 0"
    by (simp_all add: demoVoted_def)
  have f: "isConfigured ?fin" "2 \<le> length (options ?fin)" "isFinalized ?fin"
    by (simp_all add: demoVoted_def)
  from lifecycle_invariants [of demoFhe demoVoted "(1, FinalizeSurvey)"
      "[(2, ConfigureSurvey ''Q'' [''Red'', ''Blue'']), (3, SubmitVote 0 5 [7])]"]
    demoVoted_reachable v
  have a: "2 \<le> length (options demoVoted)
   \<and> 2 \<le> length (options (transact demoFhe demoVoted (1, FinalizeSurvey)))
   \<and> isConfigured (transact demoFhe demoVoted (1, FinalizeSurvey))
   \<and> hasVoted (transact demoFhe demoVoted (1, FinalizeSurvey)) 3
   \<and> optionHasVotes (transact demoFhe demoVoted (1, FinalizeSurvey)) 0"
    unfolding fin using f by blast
  from lifecycle_invariants [of demoFhe ?fin "(4, SubmitVote 1 6 [7])"] f
  have b: "isFinalized (transact demoFhe ?fin (4, SubmitVote 1 6 [7]))"
    by blast
  from lifecycle_invariants [of demoFhe "constructor 1" "(1, FinalizeSurvey)"
      "[(2, ConfigureSurvey ''Q'' [''Red'', ''Blue'']), (3, SubmitVote 0 5 [7])]"]
  have c: "configuredFlips demoFhe (constructor 1)
        [(2, ConfigureSurvey ''Q'' [''Red'', ''Blue'']), (3, SubmitVote 0 5 [7])] \<le> 1"
    by blast
  from a b c show ?thesis
    by blast
qed

section \<open>Queries\<close>

text \<open>
  Claim C8. \<^verbatim>\<open>hasVoterSubmitted\<close> returns in every state, and after any run from the
  constructor it returns true exactly for the identities of which the run accepted a
  \<^verbatim>\<open>submitVote\<close>.
\<close>

theorem hasVoterSubmitted_total:
  "hasVoterSubmitted (run E (constructor deployer) txs) voter
     = Inr (voter \<in> set (acceptedVoters E (constructor deployer) txs))
   \<and> \<not> isl (hasVoterSubmitted s voter)"
  by (simp add: hasVoterSubmitted_def run_hasVoted_iff constructor_def)

theorem hasVoterSubmitted_total_witness:
  "hasVoterSubmitted demoVoted 3 = Inr True
   \<and> hasVoterSubmitted demoVoted 4 = Inr False
   \<and> hasVoterSubmitted (constructor 1) 3 = Inr False
   \<and> \<not> isl (hasVoterSubmitted (demoVoted\<lparr>isFinalized := True\<rparr>) 3)"
proof -
  let ?txs = "[(2, ConfigureSurvey ''Q'' [''Red'', ''Blue'']), (3, SubmitVote 0 5 [7])]"
  have acc: "acceptedVoters demoFhe (constructor 1) ?txs = [3]"
    using demoSurvey_configure demoVoted_eq by (simp add: transact_def)
  have a: "hasVoterSubmitted demoVoted 3 = Inr True"
    using hasVoterSubmitted_total [of demoFhe 1 ?txs 3] unfolding demoVoted_run acc by simp
  have b: "hasVoterSubmitted demoVoted 4 = Inr False"
    using hasVoterSubmitted_total [of demoFhe 1 ?txs 4] unfolding demoVoted_run acc by simp
  have c: "hasVoterSubmitted (constructor 1) 3 = Inr False"
    using hasVoterSubmitted_total [of demoFhe 1 "[]" 3] by simp
  have d: "\<not> isl (hasVoterSubmitted (demoVoted\<lparr>isFinalized := True\<rparr>) 3)"
    using hasVoterSubmitted_total [of demoFhe 1 "[]" 3 "demoVoted\<lparr>isFinalized := True\<rparr>"]
    by blast
  from a b c d show ?thesis
    by blast
qed

section \<open>The error that is never raised\<close>

text \<open>
  Claim C9. No function of the contract reverts with \<open>NotOwner\<close>, in any state, for
  any caller and any arguments: neither the six state-changing functions nor the four
  views. (The getters the compiler generates for the public state variables only read
  a slot.)
\<close>

theorem notOwner_unreachable:
  "exec E s sender c \<noteq> Inl NotOwner
   \<and> getOptionLabels s \<noteq> Inl NotOwner
   \<and> getEncryptedTotal s i \<noteq> Inl NotOwner
   \<and> optionCount s \<noteq> Inl NotOwner
   \<and> hasVoterSubmitted s voter \<noteq> Inl NotOwner"
proof -
  have "exec E s sender c \<noteq> Inl NotOwner"
    by (cases c)
       (simp_all add: configureSurvey_def submitVote_def finalizeSurvey_def allowResultFor_def
          allowResultForSelf_def allowAllResultsForSelf_closed Let_def split: option.splits)
  then show ?thesis
    by (simp add: getOptionLabels_def getEncryptedTotal_def optionCount_def
        hasVoterSubmitted_def)
qed

theorem notOwner_unreachable_witness:
  "exec demoFhe demoVoted 4 FinalizeSurvey \<noteq> Inl NotOwner
   \<and> exec demoFhe demoVoted 4 (AllowResultFor 9 0) \<noteq> Inl NotOwner
   \<and> getOptionLabels demoVoted \<noteq> Inl NotOwner
   \<and> getEncryptedTotal demoVoted 0 \<noteq> Inl NotOwner
   \<and> optionCount demoVoted \<noteq> Inl NotOwner
   \<and> hasVoterSubmitted demoVoted 4 \<noteq> Inl NotOwner"
  using notOwner_unreachable [of demoFhe demoVoted 4 FinalizeSurvey 0 4]
    notOwner_unreachable [of demoFhe demoVoted 4 "AllowResultFor 9 0" 0 4]
  by blast

section \<open>Frame of an accepted vote\<close>

text \<open>
  Claim C10. An accepted \<^verbatim>\<open>submitVote\<close> by \<open>voter\<close> for option \<open>k\<close> keeps the number
  of options, every other option (label and total) and its has-votes flag, the label
  of option \<open>k\<close>, every other identity's voter record, and the question, the
  configured and finalized flags, the owner and the creator.
\<close>

theorem submitVote_frame:
  assumes "submitVote E s voter k v p = Inr (s', evs)"
  shows "length (options s') = length (options s)
       \<and> (\<forall>j. j \<noteq> k \<longrightarrow> options s' ! j = options s ! j
                       \<and> optionHasVotes s' j = optionHasVotes s j)
       \<and> label (options s' ! k) = label (options s ! k)
       \<and> (\<forall>a. a \<noteq> voter \<longrightarrow> hasVoted s' a = hasVoted s a)
       \<and> surveyQuestion s' = surveyQuestion s
       \<and> isConfigured s' = isConfigured s
       \<and> isFinalized s' = isFinalized s
       \<and> owner s' = owner s
       \<and> surveyCreator s' = surveyCreator s"
  using assms
  by (auto simp: submitVote_def Let_def split: if_splits option.splits)

theorem submitVote_frame_witness:
  "length (options demoVoted) = length (options demoSurvey)
   \<and> options demoVoted ! 1 = options demoSurvey ! 1
   \<and> optionHasVotes demoVoted 1 = optionHasVotes demoSurvey 1
   \<and> hasVoted demoVoted 4 = hasVoted demoSurvey 4
   \<and> surveyQuestion demoVoted = surveyQuestion demoSurvey
   \<and> isConfigured demoVoted = isConfigured demoSurvey
   \<and> isFinalized demoVoted = isFinalized demoSurvey"
proof -
  have "(1::nat) \<noteq> 0" and "(4::address) \<noteq> 3"
    by simp_all
  with submitVote_frame [OF demoVoted_eq] show ?thesis
    by blast
qed

end
